theory Spec2Isabelle
  imports Complex_Main "HOL-Library.Char_ord" "HOL-Library.List_Lexorder"
begin

section \<open>Python values read from the log\<close>

text \<open>
  The log is the \<^verbatim>\<open>daily_log\<close> dictionary that \<^verbatim>\<open>json.load\<close> returns: date strings
  mapped to entry dictionaries whose fields hold arbitrary JSON values. A dictionary is
  an association list in insertion order; a Python dictionary never holds a key twice.
  Floats are modelled as reals: rounding and the non-finite values \<^verbatim>\<open>nan\<close> and
  \<^verbatim>\<open>inf\<close> are outside the model. Strings are byte strings.
\<close>

datatype pyval =
    PNone
  | PBool bool
  | PInt int
  | PFloat real
  | PStr string
  | PList "pyval list"
  | PDict "(string \<times> pyval) list"

type_synonym pydict = "(string \<times> pyval) list"

type_synonym daily_log = "(string \<times> pydict) list"

datatype py_error = KeyError | ValueError | TypeError

text \<open>\<^verbatim>\<open>record.get(key, default)\<close>\<close>

definition dict_get :: "pydict \<Rightarrow> string \<Rightarrow> pyval \<Rightarrow> pyval" where
  "dict_get r key dflt = (case map_of r key of None \<Rightarrow> dflt | Some v \<Rightarrow> v)"

text \<open>\<^verbatim>\<open>daily_log[date_str]\<close>, which raises \<^verbatim>\<open>KeyError\<close> on a missing key.\<close>

definition getitem :: "daily_log \<Rightarrow> string \<Rightarrow> py_error + pydict" where
  "getitem lg k = (case map_of lg k of None \<Rightarrow> Inl KeyError | Some r \<Rightarrow> Inr r)"

text \<open>Truth value of a Python object, as \<^verbatim>\<open>if x:\<close> and \<^verbatim>\<open>not x\<close> test it.\<close>

fun truthy :: "pyval \<Rightarrow> bool" where
  "truthy PNone = False"
| "truthy (PBool b) = b"
| "truthy (PInt i) = (i \<noteq> 0)"
| "truthy (PFloat x) = (x \<noteq> 0)"
| "truthy (PStr s) = (s \<noteq> [])"
| "truthy (PList xs) = (xs \<noteq> [])"
| "truthy (PDict kvs) = (kvs \<noteq> [])"

text \<open>
  The builtin \<^verbatim>\<open>float(x)\<close>, which raises \<^verbatim>\<open>TypeError\<close> on an object that is
  neither a number nor a string and \<^verbatim>\<open>ValueError\<close> on a string that is no float
  literal. The grammar of float literals belongs to the interpreter, so the conversion
  of a string is the parameter \<open>sf\<close> (\<open>None\<close> where the string is refused).
\<close>

fun py_float :: "(string \<Rightarrow> real option) \<Rightarrow> pyval \<Rightarrow> py_error + real" where
  "py_float sf PNone = Inl TypeError"
| "py_float sf (PBool b) = Inr (if b then 1 else 0)"
| "py_float sf (PInt i) = Inr (real_of_int i)"
| "py_float sf (PFloat x) = Inr x"
| "py_float sf (PStr s) = (case sf s of None \<Rightarrow> Inl ValueError | Some x \<Rightarrow> Inr x)"
| "py_float sf (PList xs) = Inl TypeError"
| "py_float sf (PDict kvs) = Inl TypeError"

text \<open>A string conversion that accepts nothing, for concrete evaluations.\<close>

definition no_str_float :: "string \<Rightarrow> real option" where
  "no_str_float s = None"

text \<open>\<^verbatim>\<open>record.get("sober", False)\<close> tested as a condition.\<close>

definition is_sober :: "pydict \<Rightarrow> bool" where
  "is_sober r = truthy (dict_get r ''sober'' (PBool False))"

section \<open>Dates\<close>

text \<open>
  \<^verbatim>\<open>datetime.strptime(date_str, "%Y-%m-%d")\<close> returns a datetime at midnight; the code
  reads its year, month and day and subtracts two of them. Only these fields are kept.
\<close>

record datetime =
  year :: nat
  month :: nat
  day :: nat

definition is_digit :: "char \<Rightarrow> bool" where
  "is_digit c = (CHR ''0'' \<le> c \<and> c \<le> CHR ''9'')"

definition digit_val :: "char \<Rightarrow> nat" where
  "digit_val c = of_char c - 48"

definition is_leap :: "nat \<Rightarrow> bool" where
  "is_leap y = (y mod 4 = 0 \<and> (y mod 100 \<noteq> 0 \<or> y mod 400 = 0))"

definition days_in_month :: "nat \<Rightarrow> nat \<Rightarrow> nat" where
  "days_in_month y m =
     (if m = 2 then (if is_leap y then 29 else 28)
      else if m = 4 \<or> m = 6 \<or> m = 9 \<or> m = 11 then 30 else 31)"

text \<open>The directive \<^verbatim>\<open>%Y\<close>: the regular expression \<^verbatim>\<open>\d\d\d\d\<close>.\<close>

fun match_Y :: "string \<Rightarrow> (nat \<times> string) option" where
  "match_Y (a # b # c # d # rest) =
     (if is_digit a \<and> is_digit b \<and> is_digit c \<and> is_digit d
      then Some (digit_val a * 1000 + digit_val b * 100 + digit_val c * 10 + digit_val d, rest)
      else None)"
| "match_Y s = None"

text \<open>The directive \<^verbatim>\<open>%m\<close>: \<^verbatim>\<open>1[0-2]|0[1-9]|[1-9]\<close>, alternatives tried in this order.\<close>

fun match_m :: "string \<Rightarrow> (nat \<times> string) option" where
  "match_m [] = None"
| "match_m [a] = (if is_digit a \<and> a \<noteq> CHR ''0'' then Some (digit_val a, []) else None)"
| "match_m (a # b # rest) =
     (if a = CHR ''1'' \<and> CHR ''0'' \<le> b \<and> b \<le> CHR ''2'' then Some (10 + digit_val b, rest)
      else if a = CHR ''0'' \<and> is_digit b \<and> b \<noteq> CHR ''0'' then Some (digit_val b, rest)
      else if is_digit a \<and> a \<noteq> CHR ''0'' then Some (digit_val a, b # rest)
      else None)"

text \<open>
  The directive \<^verbatim>\<open>%d\<close>: \<^verbatim>\<open>3[0-1]|[1-2]\d|0[1-9]|[1-9]| [1-9]\<close>, alternatives tried in
  this order.
\<close>

fun match_d :: "string \<Rightarrow> (nat \<times> string) option" where
  "match_d [] = None"
| "match_d [a] = (if is_digit a \<and> a \<noteq> CHR ''0'' then Some (digit_val a, []) else None)"
| "match_d (a # b # rest) =
     (if a = CHR ''3'' \<and> CHR ''0'' \<le> b \<and> b \<le> CHR ''1'' then Some (30 + digit_val b, rest)
      else if CHR ''1'' \<le> a \<and> a \<le> CHR ''2'' \<and> is_digit b
        then Some (digit_val a * 10 + digit_val b, rest)
      else if a = CHR ''0'' \<and> is_digit b \<and> b \<noteq> CHR ''0'' then Some (digit_val b, rest)
      else if is_digit a \<and> a \<noteq> CHR ''0'' then Some (digit_val a, b # rest)
      else if a = CHR '' '' \<and> is_digit b \<and> b \<noteq> CHR ''0'' then Some (digit_val b, rest)
      else None)"

definition match_dash :: "string \<Rightarrow> string option" where
  "match_dash s = (case s of [] \<Rightarrow> None | c # rest \<Rightarrow> if c = CHR ''-'' then Some rest else None)"

text \<open>
  \<^verbatim>\<open>strptime\<close> with the format \<^verbatim>\<open>"%Y-%m-%d"\<close>: the pattern must match at the start of
  the string, nothing may remain after the match, and the three numbers must form a date
  of the calendar (years start at 1). \<open>None\<close> stands for the \<^verbatim>\<open>ValueError\<close>.
\<close>

definition strptime :: "string \<Rightarrow> datetime option" where
  "strptime s =
     (case match_Y s of None \<Rightarrow> None
      | Some (y, s1) \<Rightarrow>
     (case match_dash s1 of None \<Rightarrow> None
      | Some s2 \<Rightarrow>
     (case match_m s2 of None \<Rightarrow> None
      | Some (m, s3) \<Rightarrow>
     (case match_dash s3 of None \<Rightarrow> None
      | Some s4 \<Rightarrow>
     (case match_d s4 of None \<Rightarrow> None
      | Some (d, s5) \<Rightarrow>
         if s5 \<noteq> [] then None
         else if y < 1 then None
         else if d > days_in_month y m then None
         else Some \<lparr>year = y, month = m, day = d\<rparr>)))))"

text \<open>The proleptic Gregorian ordinal of a date, as \<^verbatim>\<open>date.toordinal\<close> computes it.\<close>

definition days_before_year :: "nat \<Rightarrow> int" where
  "days_before_year y =
     (let y1 = int y - 1 in y1 * 365 + y1 div 4 - y1 div 100 + y1 div 400)"

definition days_before_month :: "nat \<Rightarrow> nat \<Rightarrow> int" where
  "days_before_month y m = (\<Sum>k \<leftarrow> [1..<m]. int (days_in_month y k))"

definition toordinal :: "datetime \<Rightarrow> int" where
  "toordinal dt = days_before_year (year dt) + days_before_month (year dt) (month dt) + int (day dt)"

text \<open>\<^verbatim>\<open>(a - b).days\<close> for two datetimes at midnight.\<close>

definition delta_days :: "datetime \<Rightarrow> datetime \<Rightarrow> int" where
  "delta_days a b = toordinal a - toordinal b"

section \<open>tracker.py: SobrietyTracker\<close>

text \<open>
  \<open>D\<close> is the constant \<^verbatim>\<open>DEFAULT_AMOUNT\<close> of the module \<^verbatim>\<open>app.constants\<close>, a number
  fixed by the configuration; it is a parameter of every function that reads it.
\<close>

subsection \<open>get_statistics\<close>

text \<open>
  The buckets are the dictionaries \<^verbatim>\<open>stats["monthly"]\<close> and \<^verbatim>\<open>stats["yearly"]\<close>. Their
  keys \<^verbatim>\<open>strftime("%Y-%m")\<close> and \<^verbatim>\<open>strftime("%Y")\<close> are modelled by the numbers they print:
  the pair of year and month, and the year.
\<close>

record monthly_stat =
  m_sober_days :: nat
  m_total_days :: nat
  m_spent :: real

record yearly_stat =
  y_sober_days :: nat
  y_total_days :: nat

record statistics =
  monthly :: "nat \<times> nat \<rightharpoonup> monthly_stat"
  yearly :: "nat \<rightharpoonup> yearly_stat"

text \<open>The amount \<^verbatim>\<open>amt\<close> of lines 81 to 86: the zero test follows the handler.\<close>

definition amt_get_statistics :: "real \<Rightarrow> (string \<Rightarrow> real option) \<Rightarrow> pydict \<Rightarrow> real" where
  "amt_get_statistics D sf r =
     (let amt = (case py_float sf (dict_get r ''amount_spent'' (PFloat D)) of
                   Inl e \<Rightarrow> D | Inr x \<Rightarrow> x)
      in if amt = 0 then D else amt)"

text \<open>One pass of the loop over \<^verbatim>\<open>daily_log.items()\<close>.\<close>

definition statistics_step ::
  "real \<Rightarrow> (string \<Rightarrow> real option) \<Rightarrow> statistics \<Rightarrow> string \<times> pydict \<Rightarrow> statistics" where
  "statistics_step D sf stats e =
     (case strptime (fst e) of
        None \<Rightarrow> stats
      | Some date_obj \<Rightarrow>
          let month_key = (year date_obj, month date_obj);
              m0 = (case monthly stats month_key of
                      None \<Rightarrow> \<lparr>m_sober_days = 0, m_total_days = 0, m_spent = 0\<rparr>
                    | Some b \<Rightarrow> b);
              m1 = m0\<lparr>m_total_days := m_total_days m0 + 1\<rparr>;
              m2 = (if is_sober (snd e)
                    then m1\<lparr>m_sober_days := m_sober_days m1 + 1\<rparr>
                    else m1\<lparr>m_spent := m_spent m1 + amt_get_statistics D sf (snd e)\<rparr>);
              year_key = year date_obj;
              y0 = (case yearly stats year_key of
                      None \<Rightarrow> \<lparr>y_sober_days = 0, y_total_days = 0\<rparr>
                    | Some b \<Rightarrow> b);
              y1 = y0\<lparr>y_total_days := y_total_days y0 + 1\<rparr>;
              y2 = (if is_sober (snd e)
                    then y1\<lparr>y_sober_days := y_sober_days y1 + 1\<rparr>
                    else y1)
          in \<lparr>monthly = (monthly stats)(month_key \<mapsto> m2),
              yearly = (yearly stats)(year_key \<mapsto> y2)\<rparr>)"

definition get_statistics ::
  "real \<Rightarrow> (string \<Rightarrow> real option) \<Rightarrow> daily_log \<Rightarrow> statistics" where
  "get_statistics D sf lg =
     foldl (statistics_step D sf) \<lparr>monthly = Map.empty, yearly = Map.empty\<rparr> lg"

text \<open>
  The percentage that \<^verbatim>\<open>print_statistics\<close> and the main menu print for a bucket, that
  \<^verbatim>\<open>get_additional_stats\<close> returns and that the report writes:
  \<^verbatim>\<open>(sober_days / total_days * 100) if total_days else 0\<close>.
\<close>

definition percent :: "nat \<Rightarrow> nat \<Rightarrow> real" where
  "percent sober_days total_days =
     (if total_days \<noteq> 0 then real sober_days / real total_days * 100 else 0)"

subsection \<open>get_additional_stats\<close>

record additional_stats =
  total_days :: nat
  percent_sober :: real
  longest_streak :: nat
  current_streak :: nat

text \<open>\<^verbatim>\<open>sum(1 for d in daily_log if daily_log[d].get("sober", False))\<close>\<close>

fun count_sober :: "daily_log \<Rightarrow> string list \<Rightarrow> nat \<Rightarrow> py_error + nat" where
  "count_sober lg [] n = Inr n"
| "count_sober lg (d # ds) n =
     (case getitem lg d of
        Inl e \<Rightarrow> Inl e
      | Inr r \<Rightarrow> count_sober lg ds (if is_sober r then n + 1 else n))"

text \<open>
  The loop of lines 114 to 127 over \<^verbatim>\<open>sorted_dates\<close>; the state is
  \<^verbatim>\<open>(longest_streak, current_streak, previous_date)\<close>.
\<close>

fun streak_loop ::
  "daily_log \<Rightarrow> string list \<Rightarrow> nat \<times> nat \<times> datetime option \<Rightarrow>
   py_error + nat \<times> nat \<times> datetime option" where
  "streak_loop lg [] st = Inr st"
| "streak_loop lg (date_str # ds) (longest, current, previous_date) =
     (case strptime date_str of
        None \<Rightarrow> streak_loop lg ds (longest, current, previous_date)
      | Some date_obj \<Rightarrow>
          (case getitem lg date_str of
             Inl e \<Rightarrow> Inl e
           | Inr r \<Rightarrow>
               if is_sober r then
                 let current' =
                       (case previous_date of
                          None \<Rightarrow> 1
                        | Some p \<Rightarrow> if delta_days date_obj p = 1 then current + 1 else 1)
                 in streak_loop lg ds (max longest current', current', Some date_obj)
               else streak_loop lg ds (longest, 0, Some date_obj)))"

text \<open>The loop of lines 130 to 135 over \<^verbatim>\<open>reversed(sorted_dates)\<close>, with its break.\<close>

fun current_seq_loop :: "daily_log \<Rightarrow> string list \<Rightarrow> nat \<Rightarrow> py_error + nat" where
  "current_seq_loop lg [] current_seq = Inr current_seq"
| "current_seq_loop lg (date_str # ds) current_seq =
     (case getitem lg date_str of
        Inl e \<Rightarrow> Inl e
      | Inr r \<Rightarrow>
          if is_sober r then current_seq_loop lg ds (current_seq + 1)
          else Inr current_seq)"

definition get_additional_stats :: "daily_log \<Rightarrow> py_error + additional_stats" where
  "get_additional_stats lg =
     (let sorted_dates = sort (map fst lg);
          total = length sorted_dates
      in case count_sober lg (map fst lg) 0 of
           Inl e \<Rightarrow> Inl e
         | Inr sober_days \<Rightarrow>
       (case streak_loop lg sorted_dates (0, 0, None) of
           Inl e \<Rightarrow> Inl e
         | Inr (longest, current, previous_date) \<Rightarrow>
       (case current_seq_loop lg (rev sorted_dates) 0 of
           Inl e \<Rightarrow> Inl e
         | Inr current_seq \<Rightarrow>
             Inr \<lparr>total_days = total,
                  percent_sober = percent sober_days total,
                  longest_streak = longest,
                  current_streak = current_seq\<rparr>)))"

subsection \<open>print_statistics: the spending totals\<close>

text \<open>
  Lines 176 to 193. \<open>now\<close> is the value of \<^verbatim>\<open>datetime.now()\<close> that the method reads
  on line 178; the method itself takes no argument besides the tracker.
\<close>

definition amt_print_statistics :: "real \<Rightarrow> (string \<Rightarrow> real option) \<Rightarrow> pydict \<Rightarrow> real" where
  "amt_print_statistics D sf r =
     (case py_float sf (dict_get r ''amount_spent'' (PFloat D)) of
        Inl e \<Rightarrow> D
      | Inr amt \<Rightarrow> if amt = 0 then D else amt)"

definition spending_step ::
  "real \<Rightarrow> (string \<Rightarrow> real option) \<Rightarrow> datetime \<Rightarrow> real \<times> real \<Rightarrow> string \<times> pydict \<Rightarrow> real \<times> real" where
  "spending_step D sf now acc e =
     (case strptime (fst e) of
        None \<Rightarrow> acc
      | Some d \<Rightarrow>
          if \<not> is_sober (snd e) then
            let amt = amt_print_statistics D sf (snd e);
                overall_spending = fst acc + amt
            in if year d = year now \<and> month d = month now
               then (overall_spending, snd acc + amt)
               else (overall_spending, snd acc)
          else acc)"

text \<open>The pair \<^verbatim>\<open>(overall_spending, current_month_spending)\<close> that is printed.\<close>

definition print_statistics_spending ::
  "real \<Rightarrow> (string \<Rightarrow> real option) \<Rightarrow> datetime \<Rightarrow> daily_log \<Rightarrow> real \<times> real" where
  "print_statistics_spending D sf now lg = foldl (spending_step D sf now) (0, 0) lg"

section \<open>report.py: ExcelReport.generate\<close>

text \<open>
  The amount written in the last cell of a row (lines 36 to 45): nothing for a sober
  entry, otherwise the amount that is then formatted with two decimals.
\<close>

definition row_amount_spent ::
  "real \<Rightarrow> (string \<Rightarrow> real option) \<Rightarrow> pydict \<Rightarrow> real option" where
  "row_amount_spent D sf entry =
     (if is_sober entry then None
      else Some (case py_float sf (dict_get entry ''amount_spent'' (PFloat D)) of
                   Inl e \<Rightarrow> D
                 | Inr amount_spent \<Rightarrow> if amount_spent = 0 then D else amount_spent))"

text \<open>
  One element of the generator of lines 102 to 107, for a record that passed the filter
  \<^verbatim>\<open>if not record.get("sober", False)\<close>. The conversions stand in no handler of their own.
\<close>

definition overall_term ::
  "real \<Rightarrow> (string \<Rightarrow> real option) \<Rightarrow> pydict \<Rightarrow> py_error + real" where
  "overall_term D sf r =
     (if \<not> truthy (dict_get r ''sober'' (PBool True)) then
        (case py_float sf (dict_get r ''amount_spent'' (PFloat D)) of
           Inl e \<Rightarrow> Inl e
         | Inr x \<Rightarrow> if x > 0 then Inr x else Inr D)
      else Inr D)"

text \<open>\<^verbatim>\<open>sum(...)\<close> over \<^verbatim>\<open>daily_log.values()\<close>, accumulating from the left.\<close>

fun overall_sum ::
  "real \<Rightarrow> (string \<Rightarrow> real option) \<Rightarrow> pydict list \<Rightarrow> real \<Rightarrow> py_error + real" where
  "overall_sum D sf [] acc = Inr acc"
| "overall_sum D sf (r # rs) acc =
     (if \<not> is_sober r then
        (case overall_term D sf r of
           Inl e \<Rightarrow> Inl e
         | Inr x \<Rightarrow> overall_sum D sf rs (acc + x))
      else overall_sum D sf rs acc)"

record report_summary =
  r_total_days :: nat
  r_sober_days :: nat
  r_drinking_days :: nat
  r_percent_sober :: real
  r_longest_streak :: nat
  r_current_seq :: nat
  r_overall_spending :: real

text \<open>
  The summary calculations of lines 70 to 107. The two streak loops are the text of the
  loops of \<^verbatim>\<open>get_additional_stats\<close>. An exception raised here leaves the \<^verbatim>\<open>try\<close> block
  of \<^verbatim>\<open>generate\<close>: its handler prints the error, and no summary is written and no file
  is saved.
\<close>

definition generate_summary ::
  "real \<Rightarrow> (string \<Rightarrow> real option) \<Rightarrow> daily_log \<Rightarrow> py_error + report_summary" where
  "generate_summary D sf lg =
     (let total = length lg;
          sober_days = length (filter is_sober (map snd lg));
          drinking_days = total - sober_days;
          percent_sober = (if total > 0 then real sober_days / real total * 100 else 0);
          sorted_dates = sort (map fst lg)
      in case streak_loop lg sorted_dates (0, 0, None) of
           Inl e \<Rightarrow> Inl e
         | Inr (longest, current, previous_date) \<Rightarrow>
       (case current_seq_loop lg (rev sorted_dates) 0 of
           Inl e \<Rightarrow> Inl e
         | Inr current_seq \<Rightarrow>
       (case overall_sum D sf (map snd lg) 0 of
           Inl e \<Rightarrow> Inl e
         | Inr overall_spending \<Rightarrow>
             Inr \<lparr>r_total_days = total,
                  r_sober_days = sober_days,
                  r_drinking_days = drinking_days,
                  r_percent_sober = percent_sober,
                  r_longest_streak = longest,
                  r_current_seq = current_seq,
                  r_overall_spending = overall_spending\<rparr>)))"

section \<open>ui.py: display_calendar\<close>

text \<open>
  The statistics of lines 46 to 65 for the month \<open>(y, m)\<close> that the caller passes; the
  state is \<^verbatim>\<open>(total, sober, spent)\<close>. The default amount is the literal 40 here.
\<close>

definition amt_display_calendar :: "(string \<Rightarrow> real option) \<Rightarrow> pydict \<Rightarrow> real" where
  "amt_display_calendar sf r =
     (let amt = (case py_float sf (dict_get r ''amount_spent'' (PInt 40)) of
                   Inl e \<Rightarrow> 40 | Inr x \<Rightarrow> x)
      in if amt = 0 then 40 else amt)"

definition calendar_step ::
  "(string \<Rightarrow> real option) \<Rightarrow> nat \<Rightarrow> nat \<Rightarrow> nat \<times> nat \<times> real \<Rightarrow> string \<times> pydict \<Rightarrow>
   nat \<times> nat \<times> real" where
  "calendar_step sf y m acc e =
     (case acc of (total_n, sober_n, spent) \<Rightarrow>
        (case strptime (fst e) of
           None \<Rightarrow> acc
         | Some d \<Rightarrow>
             if year d = y \<and> month d = m then
               (if is_sober (snd e) then (total_n + 1, sober_n + 1, spent)
                else (total_n + 1, sober_n, spent + amt_display_calendar sf (snd e)))
             else acc))"

definition display_calendar_stats ::
  "(string \<Rightarrow> real option) \<Rightarrow> nat \<Rightarrow> nat \<Rightarrow> daily_log \<Rightarrow> nat \<times> nat \<times> real" where
  "display_calendar_stats sf y m lg = foldl (calendar_step sf y m) (0, 0, 0) lg"

section \<open>Notions used to state the properties\<close>

text \<open>
  An entry is validly dated when \<open>strptime\<close> accepts its key; it falls in a month or in
  a year when the accepted date does.
\<close>

definition in_month :: "nat \<times> nat \<Rightarrow> string \<times> pydict \<Rightarrow> bool" where
  "in_month ym e = (case strptime (fst e) of None \<Rightarrow> False | Some d \<Rightarrow> (year d, month d) = ym)"

definition in_year :: "nat \<Rightarrow> string \<times> pydict \<Rightarrow> bool" where
  "in_year y e = (case strptime (fst e) of None \<Rightarrow> False | Some d \<Rightarrow> year d = y)"

definition month_bucket :: "real \<Rightarrow> (string \<Rightarrow> real option) \<Rightarrow> daily_log \<Rightarrow> monthly_stat option" where
  "month_bucket D sf es =
     (if es = [] then None
      else Some \<lparr>m_sober_days = length (filter (\<lambda>e. is_sober (snd e)) es),
                 m_total_days = length es,
                 m_spent = (\<Sum>e \<leftarrow> filter (\<lambda>e. \<not> is_sober (snd e)) es. amt_get_statistics D sf (snd e))\<rparr>)"

definition year_bucket :: "daily_log \<Rightarrow> yearly_stat option" where
  "year_bucket es =
     (if es = [] then None
      else Some \<lparr>y_sober_days = length (filter (\<lambda>e. is_sober (snd e)) es),
                 y_total_days = length es\<rparr>)"

text \<open>The log of scenario A.\<close>

definition log_A :: daily_log where
  "log_A = [(''2024-01-01'', [(''sober'', PBool True)]),
            (''2024-01-02'', [(''sober'', PBool True)]),
            (''2024-01-03'', [(''sober'', PBool False), (''amount_spent'', PFloat 0)])]"

text \<open>
  Whether the entry stored under a key is marked sober, as
  \<^verbatim>\<open>daily_log[date_str].get("sober", False)\<close> tests it.
\<close>

definition sober_at :: "daily_log \<Rightarrow> string \<Rightarrow> bool" where
  "sober_at lg k = (case map_of lg k of None \<Rightarrow> False | Some r \<Rightarrow> is_sober r)"

text \<open>
  The validly dated entries among the keys \<open>ks\<close>, in the order of \<open>ks\<close>: each with
  its date and its sober mark.
\<close>

fun examined :: "daily_log \<Rightarrow> string list \<Rightarrow> (datetime \<times> bool) list" where
  "examined lg [] = []"
| "examined lg (k # ks) =
     (case strptime k of
        None \<Rightarrow> examined lg ks
      | Some d \<Rightarrow> (d, sober_at lg k) # examined lg ks)"

text \<open>
  The streak walk in the words of the specification: the running streak after each
  step. A sober entry extends it by 1 exactly when the date examined before is one
  calendar day earlier; a sober entry with any other gap, or with no date before it,
  sets it to 1; an entry that is not sober sets it to 0. The longest streak is the
  maximum of the running streak over all steps.
\<close>

fun running :: "datetime option \<Rightarrow> nat \<Rightarrow> (datetime \<times> bool) list \<Rightarrow> nat list" where
  "running prev cur [] = []"
| "running prev cur ((d, s) # es) =
     (let cur' = (if s then (case prev of
                               None \<Rightarrow> 1
                             | Some p \<Rightarrow> if toordinal d = toordinal p + 1 then cur + 1 else 1)
                  else 0)
      in cur' # running (Some d) cur' es)"

definition spec_longest :: "(datetime \<times> bool) list \<Rightarrow> nat" where
  "spec_longest es = foldr max (running None 0 es) 0"

text \<open>
  The current streak in the words of the specification: the number of entries at the
  end of the sorted log that are marked sober, counted backwards from the last one.
\<close>

definition spec_current :: "daily_log \<Rightarrow> nat" where
  "spec_current lg = length (takeWhile (sober_at lg) (rev (sort (map fst lg))))"

text \<open>The log of scenario C, and a log with the key of scenario E.\<close>

definition log_C :: daily_log where
  "log_C = [(''2024-02-10'', [(''sober'', PBool True)]),
            (''2024-02-12'', [(''sober'', PBool True)])]"

definition log_E :: daily_log where
  "log_E = [(''2024-01-01'', [(''sober'', PBool True)]),
            (''not-a-date'', [(''sober'', PBool False)])]"

text \<open>
  The amount a monthly bucket holds (0 while the bucket does not exist), and the
  statement that appending the entry \<open>e\<close>, dated \<open>d\<close>, to the log raises the spend
  aggregates by \<open>x\<close>: the month of \<open>d\<close>, the overall total, and the total of the
  current month when \<open>d\<close> lies in the month of \<open>now\<close>.
\<close>

definition month_spent :: "statistics \<Rightarrow> nat \<times> nat \<Rightarrow> real" where
  "month_spent st ym = (case monthly st ym of None \<Rightarrow> 0 | Some b \<Rightarrow> m_spent b)"

definition spend_added ::
  "real \<Rightarrow> (string \<Rightarrow> real option) \<Rightarrow> datetime \<Rightarrow> daily_log \<Rightarrow> string \<times> pydict \<Rightarrow> datetime \<Rightarrow> real \<Rightarrow> bool" where
  "spend_added D sf now lg e d x =
     (month_spent (get_statistics D sf (lg @ [e])) (year d, month d) =
        month_spent (get_statistics D sf lg) (year d, month d) + x \<and>
      fst (print_statistics_spending D sf now (lg @ [e])) =
        fst (print_statistics_spending D sf now lg) + x \<and>
      snd (print_statistics_spending D sf now (lg @ [e])) =
        snd (print_statistics_spending D sf now lg) +
        (if year d = year now \<and> month d = month now then x else 0))"

text \<open>The log of scenario B and a clock reading in January 2024.\<close>

definition entry_B1 :: pydict where
  "entry_B1 = [(''sober'', PBool False), (''amount_spent'', PFloat 0)]"

definition entry_B2 :: pydict where
  "entry_B2 = [(''sober'', PBool False), (''amount_spent'', PFloat 15)]"

definition log_B :: daily_log where
  "log_B = [(''2024-01-01'', entry_B1), (''2024-01-02'', entry_B2)]"

definition jan_15 :: datetime where
  "jan_15 = \<lparr>year = 2024, month = 1, day = 15\<rparr>"

text \<open>
  The spending of one month: the sum of the effective spend over the validly dated
  entries of the month \<open>(y, m)\<close> that are not sober.
\<close>

definition period_spending ::
  "real \<Rightarrow> (string \<Rightarrow> real option) \<Rightarrow> nat \<Rightarrow> nat \<Rightarrow> daily_log \<Rightarrow> real" where
  "period_spending D sf y m lg =
     (\<Sum>e \<leftarrow> filter (\<lambda>e. in_month (y, m) e \<and> \<not> is_sober (snd e)) lg.
        amt_print_statistics D sf (snd e))"

text \<open>A second clock reading, one month later.\<close>

definition feb_15 :: datetime where
  "feb_15 = \<lparr>year = 2024, month = 2, day = 15\<rparr>"

text \<open>An entry whose amount is no number, and an entry without the field \<^verbatim>\<open>sober\<close>.\<close>

definition entry_abc :: pydict where
  "entry_abc = [(''sober'', PBool False), (''amount_spent'', PStr ''abc'')]"

definition log_abc :: daily_log where
  "log_abc = [(''2024-01-01'', entry_abc)]"

definition entry_F :: pydict where
  "entry_F = [(''amount_spent'', PFloat 15)]"

definition log_F :: daily_log where
  "log_F = [(''2024-01-01'', entry_F)]"







section \<open>Evaluation of concrete inputs\<close>

lemmas date_simps = strptime_def match_dash_def is_digit_def digit_val_def days_in_month_def is_leap_def

lemma strptime_A [simp]:
  "strptime ''2024-01-01'' = Some \<lparr>year = 2024, month = 1, day = 1\<rparr>"
  "strptime ''2024-01-02'' = Some \<lparr>year = 2024, month = 1, day = 2\<rparr>"
  "strptime ''2024-01-03'' = Some \<lparr>year = 2024, month = 1, day = 3\<rparr>"
  by (simp_all add: date_simps)

lemma get_statistics_log_A:
  "monthly (get_statistics 40 no_str_float log_A) (2024, 1) = Some \<lparr>m_sober_days = 2, m_total_days = 3, m_spent = 40\<rparr>"
  "yearly (get_statistics 40 no_str_float log_A) 2024 = Some \<lparr>y_sober_days = 2, y_total_days = 3\<rparr>"
  "monthly (get_statistics 40 no_str_float log_A) (2024, 2) = None"
  by (simp_all add: get_statistics_def log_A_def statistics_step_def is_sober_def dict_get_def amt_get_statistics_def)

section \<open>Monthly and yearly buckets\<close>

lemma get_statistics_snoc:
  "get_statistics D sf (lg @ [e]) = statistics_step D sf (get_statistics D sf lg) e"
  by (simp add: get_statistics_def)

lemma monthly_step_bucket:
  "monthly st ym = month_bucket D sf es \<Longrightarrow>
   monthly (statistics_step D sf st e) ym =
     month_bucket D sf (if in_month ym e then es @ [e] else es)"
  by (cases "strptime (fst e)")
     (auto simp: statistics_step_def in_month_def month_bucket_def Let_def split: if_splits)

lemma yearly_step_bucket:
  "yearly st y = year_bucket es \<Longrightarrow>
   yearly (statistics_step D sf st e) y = year_bucket (if in_year y e then es @ [e] else es)"
  by (cases "strptime (fst e)")
     (auto simp: statistics_step_def in_year_def year_bucket_def Let_def split: if_splits)

lemma monthly_get_statistics:
  "monthly (get_statistics D sf lg) ym = month_bucket D sf (filter (in_month ym) lg)"
proof (induction lg rule: rev_induct)
  case Nil
  show ?case by (simp add: get_statistics_def month_bucket_def)
next
  case (snoc e lg)
  from monthly_step_bucket [OF snoc.IH, of e]
  show ?case unfolding get_statistics_snoc by simp
qed

lemma yearly_get_statistics:
  "yearly (get_statistics D sf lg) y = year_bucket (filter (in_year y) lg)"
proof (induction lg rule: rev_induct)
  case Nil
  show ?case by (simp add: get_statistics_def year_bucket_def)
next
  case (snoc e lg)
  from yearly_step_bucket [OF snoc.IH, of D sf e]
  show ?case unfolding get_statistics_snoc by simp
qed

lemma filter_sober_split:
  "length (filter (\<lambda>e. is_sober (snd e)) es) + length (filter (\<lambda>e. \<not> is_sober (snd e)) es) = length es"
  by (rule sum_length_filter_compl)

lemma filter_period_drinking:
  "filter (\<lambda>e. \<not> is_sober (snd e)) (filter P lg) = filter (\<lambda>e. P e \<and> \<not> is_sober (snd e)) lg"
  by (simp add: conj_commute)

text \<open>
  Claim C7. For every log, a monthly (yearly) bucket exists for a period exactly when at
  least one validly dated entry falls in that period; in every bucket the sober days
  plus the validly dated non-sober entries of the period are the total days, the sober
  days are between 0 and the total days, and the total days are at least 1, so that no
  zero-filled bucket is produced.
\<close>

theorem bucket_invariant:
  "((\<exists>b. monthly (get_statistics D sf lg) ym = Some b) \<longleftrightarrow> (\<exists>e \<in> set lg. in_month ym e)) \<and>
   (\<forall>b. monthly (get_statistics D sf lg) ym = Some b \<longrightarrow>
        m_sober_days b + length (filter (\<lambda>e. in_month ym e \<and> \<not> is_sober (snd e)) lg) = m_total_days b \<and>
        m_sober_days b \<le> m_total_days b \<and> 1 \<le> m_total_days b) \<and>
   ((\<exists>b. yearly (get_statistics D sf lg) y = Some b) \<longleftrightarrow> (\<exists>e \<in> set lg. in_year y e)) \<and>
   (\<forall>b. yearly (get_statistics D sf lg) y = Some b \<longrightarrow>
        y_sober_days b + length (filter (\<lambda>e. in_year y e \<and> \<not> is_sober (snd e)) lg) = y_total_days b \<and>
        y_sober_days b \<le> y_total_days b \<and> 1 \<le> y_total_days b)"
proof -
  let ?ms = "filter (in_month ym) lg" and ?ys = "filter (in_year y) lg"
  have m: "monthly (get_statistics D sf lg) ym = month_bucket D sf ?ms"
    by (rule monthly_get_statistics)
  have y: "yearly (get_statistics D sf lg) y = year_bucket ?ys"
    by (rule yearly_get_statistics)
  have m_ex: "(?ms \<noteq> []) = (\<exists>e \<in> set lg. in_month ym e)"
    by (simp add: filter_empty_conv)
  have y_ex: "(?ys \<noteq> []) = (\<exists>e \<in> set lg. in_year y e)"
    by (simp add: filter_empty_conv)
  have m_cnt: "length (filter (\<lambda>e. is_sober (snd e)) ?ms)
      + length (filter (\<lambda>e. in_month ym e \<and> \<not> is_sober (snd e)) lg) = length ?ms"
    using filter_sober_split [of ?ms] by (simp only: filter_period_drinking)
  have y_cnt: "length (filter (\<lambda>e. is_sober (snd e)) ?ys)
      + length (filter (\<lambda>e. in_year y e \<and> \<not> is_sober (snd e)) lg) = length ?ys"
    using filter_sober_split [of ?ys] by (simp only: filter_period_drinking)
  have c1: "(\<exists>b. monthly (get_statistics D sf lg) ym = Some b) \<longleftrightarrow> (\<exists>e \<in> set lg. in_month ym e)"
    unfolding m m_ex [symmetric] by (simp add: month_bucket_def)
  have c2: "\<forall>b. monthly (get_statistics D sf lg) ym = Some b \<longrightarrow>
        m_sober_days b + length (filter (\<lambda>e. in_month ym e \<and> \<not> is_sober (snd e)) lg) = m_total_days b \<and>
        m_sober_days b \<le> m_total_days b \<and> 1 \<le> m_total_days b"
  proof (intro allI impI)
    fix b assume "monthly (get_statistics D sf lg) ym = Some b"
    then have ne: "?ms \<noteq> []"
      and b: "m_sober_days b = length (filter (\<lambda>e. is_sober (snd e)) ?ms)" "m_total_days b = length ?ms"
      unfolding m by (auto simp: month_bucket_def split: if_splits)
    from ne have "1 \<le> length ?ms" by (cases ?ms) simp_all
    with m_cnt show "m_sober_days b + length (filter (\<lambda>e. in_month ym e \<and> \<not> is_sober (snd e)) lg) = m_total_days b \<and>
        m_sober_days b \<le> m_total_days b \<and> 1 \<le> m_total_days b"
      unfolding b by linarith
  qed
  have c3: "(\<exists>b. yearly (get_statistics D sf lg) y = Some b) \<longleftrightarrow> (\<exists>e \<in> set lg. in_year y e)"
    unfolding y y_ex [symmetric] by (simp add: year_bucket_def)
  have c4: "\<forall>b. yearly (get_statistics D sf lg) y = Some b \<longrightarrow>
        y_sober_days b + length (filter (\<lambda>e. in_year y e \<and> \<not> is_sober (snd e)) lg) = y_total_days b \<and>
        y_sober_days b \<le> y_total_days b \<and> 1 \<le> y_total_days b"
  proof (intro allI impI)
    fix b assume "yearly (get_statistics D sf lg) y = Some b"
    then have ne: "?ys \<noteq> []"
      and b: "y_sober_days b = length (filter (\<lambda>e. is_sober (snd e)) ?ys)" "y_total_days b = length ?ys"
      unfolding y by (auto simp: year_bucket_def split: if_splits)
    from ne have "1 \<le> length ?ys" by (cases ?ys) simp_all
    with y_cnt show "y_sober_days b + length (filter (\<lambda>e. in_year y e \<and> \<not> is_sober (snd e)) lg) = y_total_days b \<and>
        y_sober_days b \<le> y_total_days b \<and> 1 \<le> y_total_days b"
      unfolding b by linarith
  qed
  from c1 c2 c3 c4 show ?thesis by blast
qed

theorem bucket_invariant_witness:
  "monthly (get_statistics 40 no_str_float log_A) (2024, 1) = Some \<lparr>m_sober_days = 2, m_total_days = 3, m_spent = 40\<rparr> \<and>
   (\<exists>e \<in> set log_A. in_month (2024, 1) e) \<and>
   2 + length (filter (\<lambda>e. in_month (2024, 1) e \<and> \<not> is_sober (snd e)) log_A) = 3 \<and>
   yearly (get_statistics 40 no_str_float log_A) 2024 = Some \<lparr>y_sober_days = 2, y_total_days = 3\<rparr> \<and>
   (\<exists>e \<in> set log_A. in_year 2024 e) \<and>
   2 + length (filter (\<lambda>e. in_year 2024 e \<and> \<not> is_sober (snd e)) log_A) = 3 \<and>
   monthly (get_statistics 40 no_str_float log_A) (2024, 2) = None \<and>
   \<not> (\<exists>e \<in> set log_A. in_month (2024, 2) e)"
  using bucket_invariant [of 40 no_str_float log_A "(2024, 1)" 2024]
    bucket_invariant [of 40 no_str_float log_A "(2024, 2)" 2024]
    get_statistics_log_A
  by auto

section \<open>The loops of get_additional_stats and of the report\<close>

lemma getitem_key:
  "k \<in> fst ` set lg \<Longrightarrow> \<exists>r. getitem lg k = Inr r \<and> map_of lg k = Some r"
  by (cases "map_of lg k") (auto simp: getitem_def map_of_eq_None_iff)

lemma count_sober_eq:
  "set ds \<subseteq> fst ` set lg \<Longrightarrow>
   count_sober lg ds n = Inr (n + length (filter (sober_at lg) ds))"
proof (induction ds arbitrary: n)
  case Nil
  show ?case by simp
next
  case (Cons d ds)
  from Cons.prems obtain r where r: "getitem lg d = Inr r" "map_of lg d = Some r"
    using getitem_key [of d lg] by auto
  from Cons.prems have sub: "set ds \<subseteq> fst ` set lg" by simp
  show ?case using Cons.IH [OF sub] r by (simp add: sober_at_def)
qed

lemma current_seq_loop_eq:
  "set ds \<subseteq> fst ` set lg \<Longrightarrow>
   current_seq_loop lg ds n = Inr (n + length (takeWhile (sober_at lg) ds))"
proof (induction ds arbitrary: n)
  case Nil
  show ?case by simp
next
  case (Cons d ds)
  from Cons.prems obtain r where r: "getitem lg d = Inr r" "map_of lg d = Some r"
    using getitem_key [of d lg] by auto
  from Cons.prems have sub: "set ds \<subseteq> fst ` set lg" by simp
  show ?case using Cons.IH [OF sub] r by (simp add: sober_at_def)
qed

lemma streak_loop_eq:
  "set ds \<subseteq> fst ` set lg \<Longrightarrow>
   \<exists>c' p'. streak_loop lg ds (l, c, p) =
     Inr (max l (foldr max (running p c (examined lg ds)) 0), c', p')"
proof (induction ds arbitrary: l c p)
  case Nil
  show ?case by simp
next
  case (Cons d ds)
  from Cons.prems have sub: "set ds \<subseteq> fst ` set lg" by simp
  show ?case
  proof (cases "strptime d")
    case None
    then show ?thesis using Cons.IH [OF sub, of l c p] by simp
  next
    case (Some date_obj)
    from Cons.prems obtain r where r: "getitem lg d = Inr r" "map_of lg d = Some r"
      using getitem_key [of d lg] by auto
    show ?thesis
    proof (cases "is_sober r")
      case False
      from Cons.IH [OF sub, of l 0 "Some date_obj"] Some r False
      show ?thesis by (simp add: sober_at_def)
    next
      case True
      define c1 where "c1 = (case p of None \<Rightarrow> 1
                        | Some q \<Rightarrow> if delta_days date_obj q = 1 then c + 1 else 1)"
      have c1': "c1 = (case p of None \<Rightarrow> 1
                        | Some q \<Rightarrow> if toordinal date_obj = toordinal q + 1 then c + 1 else 1)"
        unfolding c1_def delta_days_def by (auto split: option.splits)
      from Cons.IH [OF sub, of "max l c1" c1 "Some date_obj"] Some r True
      show ?thesis
        by (simp add: sober_at_def c1_def [symmetric] c1' [symmetric] max.assoc)
    qed
  qed
qed

lemma keys_sorted: "set (sort (map fst lg)) \<subseteq> fst ` set lg"
  by simp

lemma keys_rev_sorted: "set (rev (sort (map fst lg))) \<subseteq> fst ` set lg"
  by simp

lemma get_additional_stats_eq:
  "get_additional_stats lg =
     Inr \<lparr>total_days = length lg,
          percent_sober = percent (length (filter (sober_at lg) (map fst lg))) (length lg),
          longest_streak = spec_longest (examined lg (sort (map fst lg))),
          current_streak = spec_current lg\<rparr>"
proof -
  have a: "count_sober lg (map fst lg) 0 = Inr (length (filter (sober_at lg) (map fst lg)))"
    using count_sober_eq [of "map fst lg" lg 0] by simp
  obtain c' p' where b: "streak_loop lg (sort (map fst lg)) (0, 0, None) =
      Inr (spec_longest (examined lg (sort (map fst lg))), c', p')"
    using streak_loop_eq [OF keys_sorted, of lg 0 0 None] by (auto simp: spec_longest_def)
  have c: "current_seq_loop lg (rev (sort (map fst lg))) 0 = Inr (spec_current lg)"
    using current_seq_loop_eq [OF keys_rev_sorted, of lg 0] by (simp add: spec_current_def)
  show ?thesis by (simp add: get_additional_stats_def a b c Let_def)
qed


lemma generate_summary_eq:
  "generate_summary D sf lg =
     (case overall_sum D sf (map snd lg) 0 of
        Inl e \<Rightarrow> Inl e
      | Inr x \<Rightarrow>
          Inr \<lparr>r_total_days = length lg,
               r_sober_days = length (filter is_sober (map snd lg)),
               r_drinking_days = length lg - length (filter is_sober (map snd lg)),
               r_percent_sober = percent (length (filter is_sober (map snd lg))) (length lg),
               r_longest_streak = spec_longest (examined lg (sort (map fst lg))),
               r_current_seq = spec_current lg,
               r_overall_spending = x\<rparr>)"
proof -
  obtain c' p' where b: "streak_loop lg (sort (map fst lg)) (0, 0, None) =
      Inr (spec_longest (examined lg (sort (map fst lg))), c', p')"
    using streak_loop_eq [OF keys_sorted, of lg 0 0 None] by (auto simp: spec_longest_def)
  have c: "current_seq_loop lg (rev (sort (map fst lg))) 0 = Inr (spec_current lg)"
    using current_seq_loop_eq [OF keys_rev_sorted, of lg 0] by (simp add: spec_current_def)
  show ?thesis
    by (simp add: generate_summary_def b c Let_def percent_def split: sum.splits)
qed

section \<open>The current streak\<close>

lemma eval_log_C:
  "get_additional_stats log_C =
     Inr \<lparr>total_days = 2, percent_sober = 100, longest_streak = 1, current_streak = 2\<rparr>"
  "generate_summary 40 no_str_float log_C =
     Inr \<lparr>r_total_days = 2, r_sober_days = 2, r_drinking_days = 0, r_percent_sober = 100,
          r_longest_streak = 1, r_current_seq = 2, r_overall_spending = 0\<rparr>"
  "spec_current log_C = 2"
  by code_simp+



section \<open>The percentage of sober days\<close>

lemma percent_range: "s \<le> t \<Longrightarrow> 0 \<le> percent s t \<and> percent s t \<le> 100"
  by (simp add: percent_def divide_le_eq)

lemma monthly_sober_le:
  "monthly (get_statistics D sf lg) ym = Some b \<Longrightarrow> m_sober_days b \<le> m_total_days b"
  unfolding monthly_get_statistics
  by (auto simp: month_bucket_def simp del: filter_filter split: if_splits)

lemma yearly_sober_le:
  "yearly (get_statistics D sf lg) y = Some b \<Longrightarrow> y_sober_days b \<le> y_total_days b"
  unfolding yearly_get_statistics
  by (auto simp: year_bucket_def simp del: filter_filter split: if_splits)

text \<open>
  Claim C8. The percentage is \<open>sober_days / total_days * 100\<close> when the total is
  positive and 0 when it is 0. For every monthly and yearly bucket, for the additional
  statistics of the whole log and for the summary of the report it lies between 0 and
  100.
\<close>

theorem percent_sober_guarded:
  "percent s t = (if 0 < t then real s / real t * 100 else 0) \<and>
   (\<forall>b. monthly (get_statistics D sf lg) ym = Some b \<longrightarrow>
        0 \<le> percent (m_sober_days b) (m_total_days b) \<and>
        percent (m_sober_days b) (m_total_days b) \<le> 100) \<and>
   (\<forall>b. yearly (get_statistics D sf lg) y = Some b \<longrightarrow>
        0 \<le> percent (y_sober_days b) (y_total_days b) \<and>
        percent (y_sober_days b) (y_total_days b) \<le> 100) \<and>
   (\<exists>a. get_additional_stats lg = Inr a \<and>
        percent_sober a = percent (length (filter (sober_at lg) (map fst lg))) (total_days a) \<and>
        0 \<le> percent_sober a \<and> percent_sober a \<le> 100) \<and>
   (\<forall>r. generate_summary D sf lg = Inr r \<longrightarrow>
        r_percent_sober r = percent (r_sober_days r) (r_total_days r) \<and>
        0 \<le> r_percent_sober r \<and> r_percent_sober r \<le> 100)"
proof (intro conjI allI impI)
  show "percent s t = (if 0 < t then real s / real t * 100 else 0)"
    by (simp add: percent_def)
next
  fix b assume "monthly (get_statistics D sf lg) ym = Some b"
  from percent_range [OF monthly_sober_le [OF this]]
  show "0 \<le> percent (m_sober_days b) (m_total_days b)"
    and "percent (m_sober_days b) (m_total_days b) \<le> 100" by simp_all
next
  fix b assume "yearly (get_statistics D sf lg) y = Some b"
  from percent_range [OF yearly_sober_le [OF this]]
  show "0 \<le> percent (y_sober_days b) (y_total_days b)"
    and "percent (y_sober_days b) (y_total_days b) \<le> 100" by simp_all
next
  have "length (filter (sober_at lg) (map fst lg)) \<le> length lg"
    using length_filter_le [of "sober_at lg" "map fst lg"] by simp
  from percent_range [OF this]
  show "\<exists>a. get_additional_stats lg = Inr a \<and>
        percent_sober a = percent (length (filter (sober_at lg) (map fst lg))) (total_days a) \<and>
        0 \<le> percent_sober a \<and> percent_sober a \<le> 100"
    by (simp add: get_additional_stats_eq)
next
  fix r assume r: "generate_summary D sf lg = Inr r"
  have le: "length (filter is_sober (map snd lg)) \<le> length lg"
    using length_filter_le [of is_sober "map snd lg"] by simp
  from r have eq: "r_percent_sober r = percent (r_sober_days r) (r_total_days r)"
    and sd: "r_sober_days r = length (filter is_sober (map snd lg))"
    and td: "r_total_days r = length lg"
    by (auto simp: generate_summary_eq split: sum.splits)
  show "r_percent_sober r = percent (r_sober_days r) (r_total_days r)" by (rule eq)
  from percent_range [OF le] show "0 \<le> r_percent_sober r" "r_percent_sober r \<le> 100"
    unfolding eq sd td by simp_all
qed

theorem percent_sober_guarded_witness:
  "monthly (get_statistics 40 no_str_float log_A) (2024, 1) =
     Some \<lparr>m_sober_days = 2, m_total_days = 3, m_spent = 40\<rparr> \<and>
   0 \<le> percent 2 3 \<and> percent 2 3 \<le> 100 \<and> percent 2 3 = 200 / 3 \<and> percent 0 0 = 0 \<and>
   yearly (get_statistics 40 no_str_float log_A) 2024 = Some \<lparr>y_sober_days = 2, y_total_days = 3\<rparr> \<and>
   generate_summary 40 no_str_float log_C =
     Inr \<lparr>r_total_days = 2, r_sober_days = 2, r_drinking_days = 0, r_percent_sober = 100,
          r_longest_streak = 1, r_current_seq = 2, r_overall_spending = 0\<rparr> \<and>
   percent 2 2 = 100"
  using percent_sober_guarded [of 2 3 40 no_str_float log_A "(2024, 1)" 2024]
    percent_sober_guarded [of 0 0 40 no_str_float log_C "(2024, 1)" 2024]
    get_statistics_log_A eval_log_C
  by simp

section \<open>The effective spend\<close>

lemma print_statistics_spending_snoc:
  "print_statistics_spending D sf now (lg @ [e]) =
     spending_step D sf now (print_statistics_spending D sf now lg) e"
  by (simp add: print_statistics_spending_def)

lemma month_spent_step:
  "strptime (fst e) = Some d \<Longrightarrow> \<not> is_sober (snd e) \<Longrightarrow>
   month_spent (statistics_step D sf st e) (year d, month d) =
     month_spent st (year d, month d) + amt_get_statistics D sf (snd e)"
  by (simp add: month_spent_def statistics_step_def Let_def split: option.splits)

lemma spending_step_drinking:
  "strptime (fst e) = Some d \<Longrightarrow> \<not> is_sober (snd e) \<Longrightarrow>
   spending_step D sf now acc e =
     (fst acc + amt_print_statistics D sf (snd e),
      snd acc + (if year d = year now \<and> month d = month now
                 then amt_print_statistics D sf (snd e) else 0))"
  by (simp add: spending_step_def Let_def)

lemma spend_added_amt:
  assumes "strptime (fst e) = Some d" and "\<not> is_sober (snd e)"
    and "amt_get_statistics D sf (snd e) = x" and "amt_print_statistics D sf (snd e) = x"
  shows "spend_added D sf now lg e d x"
  unfolding spend_added_def get_statistics_snoc print_statistics_spending_snoc
  using month_spent_step [OF assms(1,2)] spending_step_drinking [OF assms(1,2)] assms(3,4)
  by simp

text \<open>
  Claim C2. For every entry that is not sober, stored under a validly dated key, the
  effective spend that enters the monthly bucket, the overall total and the total of
  the current month is the default amount when \<^verbatim>\<open>amount_spent\<close> does not convert to a
  number or converts to exactly 0, and is \<open>X\<close> when it converts to \<open>X > 0\<close>.
\<close>

theorem effective_spend_rule:
  assumes "strptime k = Some d" and "\<not> is_sober r" and "map_of r ''amount_spent'' = Some v"
  shows "(((\<exists>err. py_float sf v = Inl err) \<or> py_float sf v = Inr 0) \<longrightarrow>
            spend_added D sf now lg (k, r) d D) \<and>
         (\<forall>X. py_float sf v = Inr X \<and> 0 < X \<longrightarrow> spend_added D sf now lg (k, r) d X)"
proof (intro conjI allI impI)
  have v: "dict_get r ''amount_spent'' (PFloat D) = v"
    using assms(3) by (simp add: dict_get_def)
  {
    assume "(\<exists>err. py_float sf v = Inl err) \<or> py_float sf v = Inr 0"
    then have "amt_get_statistics D sf r = D" and "amt_print_statistics D sf r = D"
      by (auto simp: amt_get_statistics_def amt_print_statistics_def v)
    then show "spend_added D sf now lg (k, r) d D"
      using assms(1,2) by (intro spend_added_amt) simp_all
  }
  {
    fix X assume "py_float sf v = Inr X \<and> 0 < X"
    then have "amt_get_statistics D sf r = X" and "amt_print_statistics D sf r = X"
      by (auto simp: amt_get_statistics_def amt_print_statistics_def v)
    then show "spend_added D sf now lg (k, r) d X"
      using assms(1,2) by (intro spend_added_amt) simp_all
  }
qed

lemma eval_log_B:
  "\<not> is_sober entry_B1" "\<not> is_sober entry_B2"
  "map_of entry_B1 ''amount_spent'' = Some (PFloat 0)"
  "map_of entry_B2 ''amount_spent'' = Some (PFloat 15)"
  "[] @ [(''2024-01-01'', entry_B1)] = [(''2024-01-01'', entry_B1)]"
  "[(''2024-01-01'', entry_B1)] @ [(''2024-01-02'', entry_B2)] = log_B"
  "month_spent (get_statistics D sf []) ym = 0"
  "print_statistics_spending D sf now [] = (0, 0)"
  by (simp_all add: is_sober_def dict_get_def entry_B1_def entry_B2_def log_B_def
      month_spent_def get_statistics_def print_statistics_spending_def)

theorem effective_spend_rule_witness:
  "strptime ''2024-01-01'' = Some \<lparr>year = 2024, month = 1, day = 1\<rparr> \<and>
   strptime ''2024-01-02'' = Some \<lparr>year = 2024, month = 1, day = 2\<rparr> \<and>
   \<not> is_sober entry_B1 \<and> \<not> is_sober entry_B2 \<and>
   map_of entry_B1 ''amount_spent'' = Some (PFloat 0) \<and>
   map_of entry_B2 ''amount_spent'' = Some (PFloat 15) \<and>
   py_float no_str_float (PFloat 0) = Inr 0 \<and>
   py_float no_str_float (PFloat 15) = Inr 15 \<and>
   month_spent (get_statistics 40 no_str_float log_B) (2024, 1) = 55 \<and>
   print_statistics_spending 40 no_str_float jan_15 log_B = (55, 55)"
proof -
  have d1: "strptime ''2024-01-01'' = Some \<lparr>year = 2024, month = 1, day = 1\<rparr>"
    and d2: "strptime ''2024-01-02'' = Some \<lparr>year = 2024, month = 1, day = 2\<rparr>"
    by simp_all
  from effective_spend_rule [OF d1 eval_log_B(1) eval_log_B(3), of no_str_float 40 jan_15 "[]"]
  have s1: "spend_added 40 no_str_float jan_15 [] (''2024-01-01'', entry_B1)
      \<lparr>year = 2024, month = 1, day = 1\<rparr> 40"
    by simp
  from effective_spend_rule [OF d2 eval_log_B(2) eval_log_B(4), of no_str_float 40 jan_15
      "[(''2024-01-01'', entry_B1)]"]
  have s2: "spend_added 40 no_str_float jan_15 [(''2024-01-01'', entry_B1)]
      (''2024-01-02'', entry_B2) \<lparr>year = 2024, month = 1, day = 2\<rparr> 15"
    by simp
  have jan: "year jan_15 = 2024" "month jan_15 = 1"
    by (simp_all add: jan_15_def)
  from s1 have a1: "month_spent (get_statistics 40 no_str_float [(''2024-01-01'', entry_B1)]) (2024, 1) = 40"
    and b1: "print_statistics_spending 40 no_str_float jan_15 [(''2024-01-01'', entry_B1)] = (40, 40)"
    by (simp_all add: spend_added_def eval_log_B(7,8) jan prod_eq_iff del: One_nat_def)
  from s2 have "month_spent (get_statistics 40 no_str_float log_B) (2024, 1) = 55"
    and "print_statistics_spending 40 no_str_float jan_15 log_B = (55, 55)"
    by (simp_all add: spend_added_def a1 b1 jan log_B_def prod_eq_iff del: One_nat_def)
  with d1 d2 eval_log_B show ?thesis by simp
qed

section \<open>The spending of the current period\<close>

lemma spending_step_snd:
  "snd (spending_step D sf now acc e) =
     snd acc + (if in_month (year now, month now) e \<and> \<not> is_sober (snd e)
                then amt_print_statistics D sf (snd e) else 0)"
  by (cases "strptime (fst e)") (auto simp: spending_step_def in_month_def Let_def)

lemma current_month_spending_eq:
  "snd (print_statistics_spending D sf now lg) = period_spending D sf (year now) (month now) lg"
proof (induction lg rule: rev_induct)
  case Nil
  show ?case by (simp add: print_statistics_spending_def period_spending_def)
next
  case (snoc e lg)
  show ?case
    unfolding print_statistics_spending_snoc spending_step_snd snoc.IH
    by (simp add: period_spending_def)
qed

lemma amt_display_calendar_eq: "amt_display_calendar sf r = amt_print_statistics 40 sf r"
  by (cases "map_of r ''amount_spent''")
     (auto simp: amt_display_calendar_def amt_print_statistics_def dict_get_def split: sum.splits)

lemma calendar_step_spent:
  "snd (snd (calendar_step sf y m acc e)) =
     snd (snd acc) + (if in_month (y, m) e \<and> \<not> is_sober (snd e)
                then amt_print_statistics 40 sf (snd e) else 0)"
  by (cases "strptime (fst e)")
     (auto simp: calendar_step_def in_month_def amt_display_calendar_eq split: prod.splits)

lemma display_calendar_spent_eq:
  "snd (snd (display_calendar_stats sf y m lg)) = period_spending 40 sf y m lg"
proof (induction lg rule: rev_induct)
  case Nil
  show ?case by (simp add: display_calendar_stats_def period_spending_def)
next
  case (snoc e lg)
  have "display_calendar_stats sf y m (lg @ [e]) =
      calendar_step sf y m (display_calendar_stats sf y m lg) e"
    by (simp add: display_calendar_stats_def)
  then show ?case
    unfolding calendar_step_spent snoc.IH by (simp add: period_spending_def calendar_step_spent snoc.IH)
qed

text \<open>
  Claim C6, as stated, fails for \<^verbatim>\<open>print_statistics\<close>: the method receives no reference
  month and reads \<^verbatim>\<open>datetime.now()\<close> itself. On the log of scenario B a reading in
  January 2024 gives 55 for the current month and a reading in February 2024 gives 0.
\<close>

theorem current_period_counterexample:
  "print_statistics_spending 40 no_str_float jan_15 log_B = (55, 55) \<and>
   print_statistics_spending 40 no_str_float feb_15 log_B = (55, 0)"
  by (simp add: print_statistics_spending_def spending_step_def log_B_def entry_B1_def entry_B2_def
      jan_15_def feb_15_def is_sober_def dict_get_def amt_print_statistics_def date_simps)

text \<open>
  Claim C6, amended. The spending of the current period is a function of the log and of
  a reference year and month only: the sum of the effective spend over the validly
  dated non-sober entries of that month. In \<^verbatim>\<open>display_calendar\<close> the caller supplies the
  year and month; in \<^verbatim>\<open>print_statistics\<close> they are those of the clock reading the method
  takes itself.
\<close>

theorem current_period_function_of_month:
  "snd (print_statistics_spending D sf now lg) =
     period_spending D sf (year now) (month now) lg \<and>
   snd (snd (display_calendar_stats sf y m lg)) = period_spending 40 sf y m lg"
  using current_month_spending_eq display_calendar_spent_eq by blast

section \<open>The summary of the report\<close>

text \<open>
  The two streak figures of the report are those of \<^verbatim>\<open>get_additional_stats\<close> on every
  log. The overall spending is not: an entry without the field \<^verbatim>\<open>sober\<close> adds the default
  amount whatever its own amount is, and a conversion that fails is not handled.
\<close>

lemma report_streaks_agree:
  "\<exists>a. get_additional_stats lg = Inr a \<and>
     (\<forall>s. generate_summary D sf lg = Inr s \<longrightarrow>
        r_longest_streak s = longest_streak a \<and> r_current_seq s = current_streak a)"
  by (auto simp: get_additional_stats_eq generate_summary_eq split: sum.splits)

lemma missing_sober_is_drinking: "map_of r ''sober'' = None \<Longrightarrow> \<not> is_sober r"
  by (simp add: is_sober_def dict_get_def)

lemma missing_sober_overall_term: "map_of r ''sober'' = None \<Longrightarrow> overall_term D sf r = Inr D"
  by (simp add: overall_term_def dict_get_def)

lemma overall_term_raises:
  "map_of r ''sober'' = Some v \<Longrightarrow> \<not> truthy v \<Longrightarrow> map_of r ''amount_spent'' = Some w \<Longrightarrow>
   py_float sf w = Inl e \<Longrightarrow> overall_term D sf r = Inl e"
  by (simp add: overall_term_def dict_get_def)

lemma overall_sum_raises:
  "overall_sum D sf rs acc = Inl e \<Longrightarrow> overall_sum D sf (rs @ rs') acc = Inl e"
  by (induction rs arbitrary: acc) (auto split: sum.splits if_splits)

text \<open>
  Claim C5 at the log whose only entry has \<^verbatim>\<open>sober = false\<close> and the amount
  \<^verbatim>\<open>"abc"\<close>: the conversion raises inside the sum of lines 102 to 107, so the summary
  is not computed, while the row of the same report, the monthly bucket and the totals
  of \<^verbatim>\<open>print_statistics\<close> substitute the default amount 40.
\<close>

theorem report_summary_aborts:
  "py_float no_str_float (PStr ''abc'') = Inl ValueError \<and>
   generate_summary 40 no_str_float log_abc = Inl ValueError \<and>
   row_amount_spent 40 no_str_float entry_abc = Some 40 \<and>
   month_spent (get_statistics 40 no_str_float log_abc) (2024, 1) = 40 \<and>
   print_statistics_spending 40 no_str_float jan_15 log_abc = (40, 40)"
  by code_simp

text \<open>
  Claim C9 at the log whose only entry has the amount 15 and no field \<^verbatim>\<open>sober\<close>: the
  overall spending of \<^verbatim>\<open>print_statistics\<close> is 15, that of the report is 40.
\<close>

theorem report_overall_differs:
  "print_statistics_spending 40 no_str_float jan_15 log_F = (15, 15) \<and>
   generate_summary 40 no_str_float log_F =
     Inr \<lparr>r_total_days = 1, r_sober_days = 0, r_drinking_days = 1, r_percent_sober = 0,
          r_longest_streak = 0, r_current_seq = 0, r_overall_spending = 40\<rparr>"
  by code_simp

text \<open>
  Claim C10 at the entry with the amount 15 and no field \<^verbatim>\<open>sober\<close>: it counts as not
  sober, and its effective spend is 15 in the monthly bucket, in the totals of
  \<^verbatim>\<open>print_statistics\<close>, in the row of the report and in the calendar, but the overall
  spending of the report adds the default amount 40 for it.
\<close>

theorem missing_sober_report_default:
  "map_of entry_F ''sober'' = None \<and> \<not> is_sober entry_F \<and>
   amt_get_statistics 40 no_str_float entry_F = 15 \<and>
   amt_print_statistics 40 no_str_float entry_F = 15 \<and>
   row_amount_spent 40 no_str_float entry_F = Some 15 \<and>
   amt_display_calendar no_str_float entry_F = 15 \<and>
   overall_term 40 no_str_float entry_F = Inr 40 \<and>
   overall_sum 40 no_str_float [entry_F] 0 = Inr 40"
  by code_simp

section \<open>Entries whose key is no date\<close>

text \<open>
  Claim C1, as stated, fails: with the entry keyed \<^verbatim>\<open>not-a-date\<close> the additional
  statistics count 2 days and 50 percent, and the current streak is 0; without it they
  count 1 day and 100 percent, and the current streak is 1.
\<close>

theorem unparsable_key_counterexample:
  "strptime ''not-a-date'' = None \<and>
   get_additional_stats log_E =
     Inr \<lparr>total_days = 2, percent_sober = 50, longest_streak = 1, current_streak = 0\<rparr> \<and>
   get_additional_stats [(''2024-01-01'', [(''sober'', PBool True)])] =
     Inr \<lparr>total_days = 1, percent_sober = 100, longest_streak = 1, current_streak = 1\<rparr>"
  by code_simp

lemma statistics_step_unparsable:
  "strptime (fst e) = None \<Longrightarrow> statistics_step D sf st e = st"
  by (simp add: statistics_step_def)

lemma spending_step_unparsable:
  "strptime (fst e) = None \<Longrightarrow> spending_step D sf now acc e = acc"
  by (simp add: spending_step_def)

lemma calendar_step_unparsable:
  "strptime (fst e) = None \<Longrightarrow> calendar_step sf y m acc e = acc"
  by (simp add: calendar_step_def split: prod.splits)

lemma examined_filter:
  "examined lg ks = examined lg (filter (\<lambda>k. strptime k \<noteq> None) ks)"
  by (induction ks) (auto split: option.splits)

lemma examined_cong:
  "(\<And>k. k \<in> set ks \<Longrightarrow> strptime k \<noteq> None \<Longrightarrow> sober_at lg k = sober_at lg' k) \<Longrightarrow>
   examined lg ks = examined lg' ks"
  by (induction ks) (auto split: option.splits)

lemma sober_at_other_key:
  "k' \<noteq> k \<Longrightarrow> sober_at (xs @ (k, r) # ys) k' = sober_at (xs @ ys) k'"
  by (simp add: sober_at_def map_add_def split: option.splits)

lemma parsable_keys_without:
  assumes "strptime k = None"
  shows "filter (\<lambda>k. strptime k \<noteq> None) (sort (map fst (xs @ (k, r) # ys))) =
         filter (\<lambda>k. strptime k \<noteq> None) (sort (map fst (xs @ ys)))"
proof -
  have "filter (\<lambda>k. strptime k \<noteq> None) (map fst (xs @ (k, r) # ys)) =
        filter (\<lambda>k. strptime k \<noteq> None) (map fst (xs @ ys))"
    using assms by simp
  then show ?thesis by (simp only: filter_sort)
qed

lemma examined_without:
  assumes "strptime k = None"
  shows "examined (xs @ (k, r) # ys) (sort (map fst (xs @ (k, r) # ys))) =
         examined (xs @ ys) (sort (map fst (xs @ ys)))"
proof -
  let ?P = "\<lambda>k. strptime k \<noteq> None"
  let ?ks = "filter ?P (sort (map fst (xs @ ys)))"
  have "examined (xs @ (k, r) # ys) (sort (map fst (xs @ (k, r) # ys))) =
        examined (xs @ (k, r) # ys) ?ks"
    by (subst examined_filter) (simp only: parsable_keys_without [OF assms])
  also have "\<dots> = examined (xs @ ys) ?ks"
  proof (rule examined_cong)
    fix k' assume "k' \<in> set ?ks" and "strptime k' \<noteq> None"
    with assms have "k' \<noteq> k" by auto
    then show "sober_at (xs @ (k, r) # ys) k' = sober_at (xs @ ys) k'"
      by (rule sober_at_other_key)
  qed
  also have "\<dots> = examined (xs @ ys) (sort (map fst (xs @ ys)))"
    by (rule examined_filter [symmetric])
  finally show ?thesis .
qed

text \<open>
  Claim C1, amended. An entry whose key \<open>strptime\<close> refuses is absent from every
  monthly and yearly bucket, from the spending totals and from the longest streak, and
  the additional statistics are returned with it as without it (no exception);
  \<^verbatim>\<open>total_days\<close> counts it, as it counts every key of the log.
\<close>

theorem unparsable_key_skipped:
  assumes "strptime k = None"
  shows "get_statistics D sf (xs @ (k, r) # ys) = get_statistics D sf (xs @ ys) \<and>
         print_statistics_spending D sf now (xs @ (k, r) # ys) =
           print_statistics_spending D sf now (xs @ ys) \<and>
         display_calendar_stats sf y m (xs @ (k, r) # ys) = display_calendar_stats sf y m (xs @ ys) \<and>
         (\<exists>a b. get_additional_stats (xs @ (k, r) # ys) = Inr a \<and>
                get_additional_stats (xs @ ys) = Inr b \<and>
                longest_streak a = longest_streak b \<and>
                total_days a = total_days b + 1)"
proof (intro conjI)
  from assms have k: "strptime (fst (k, r)) = None" by simp
  show "get_statistics D sf (xs @ (k, r) # ys) = get_statistics D sf (xs @ ys)"
    by (simp add: get_statistics_def statistics_step_unparsable [OF k])
  show "print_statistics_spending D sf now (xs @ (k, r) # ys) =
      print_statistics_spending D sf now (xs @ ys)"
    by (simp add: print_statistics_spending_def spending_step_unparsable [OF k])
  show "display_calendar_stats sf y m (xs @ (k, r) # ys) = display_calendar_stats sf y m (xs @ ys)"
    by (simp add: display_calendar_stats_def calendar_step_unparsable [OF k])
  show "\<exists>a b. get_additional_stats (xs @ (k, r) # ys) = Inr a \<and>
                get_additional_stats (xs @ ys) = Inr b \<and>
                longest_streak a = longest_streak b \<and>
                total_days a = total_days b + 1"
    unfolding get_additional_stats_eq examined_without [OF assms] by simp
qed

theorem unparsable_key_skipped_witness:
  "strptime ''not-a-date'' = None \<and>
   get_statistics 40 no_str_float log_E =
     get_statistics 40 no_str_float [(''2024-01-01'', [(''sober'', PBool True)])] \<and>
   (\<exists>a b. get_additional_stats log_E = Inr a \<and>
          get_additional_stats [(''2024-01-01'', [(''sober'', PBool True)])] = Inr b \<and>
          longest_streak a = longest_streak b \<and> total_days a = total_days b + 1)"
proof -
  have h: "strptime ''not-a-date'' = None" by (simp add: date_simps)
  from unparsable_key_skipped [OF h, of 40 no_str_float
      "[(''2024-01-01'', [(''sober'', PBool True)])]" "[(''sober'', PBool False)]" "[]"]
  show ?thesis using h by (simp add: log_E_def)
qed

section \<open>Keys in ISO form are sorted by date\<close>







lemma of_char_zero: "of_char (CHR ''0'') = (48 :: nat)"
  by simp















































section \<open>The longest streak\<close>






end
